theory Spec2Isabelle
  imports Main
begin

section \<open>Data model of the pulses service\<close>

text \<open>
  The embedding follows \<^verbatim>\<open>src/assessments/pulses/pulses.service.ts\<close> and the
  pulses controller. Promises are modelled by their settled value: a rejected promise
  (a thrown exception) is \<open>Inl\<close>, a fulfilled one is \<open>Inr\<close>. Every operation takes
  the state of the service and returns it updated, also when it throws, so that the
  effects performed before the exception stay visible.
\<close>

datatype status = Pending | InProgress | Completed | PartialFailure | TimedOut

datatype error =
    TypeError
  | UniqueConstraintError
  | CollaboratorError string

text \<open>
  Modelled from the spec: the Pulse model (\<^verbatim>\<open>src/models/pulse.model\<close>) is not among
  the sources. A row of the \<^verbatim>\<open>pulses\<close> table has the columns that the service
  writes (\<open>slug\<close>, \<open>urlId\<close>, \<open>playlistId\<close>), the primary key \<open>id\<close> that
  \<^verbatim>\<open>createPulse\<close> logs, and the \<open>status\<close> that the spec gives a pulse.
\<close>

record pulse =
  pulse_id :: nat
  slug :: string
  urlId :: nat
  playlistId :: nat
  status :: status

text \<open>
  Modelled from the spec: the Pulse model is not among the sources, and \<^verbatim>\<open>createPulse\<close>
  passes no status to \<^verbatim>\<open>create\<close>. The spec creates a pulse with status Pending, so
  that is the default of the column.
\<close>

definition default_status :: status where
  "default_status = Pending"

text \<open>The Url record that \<^verbatim>\<open>urlByFQDN\<close> resolves; the service reads its \<open>id\<close>.\<close>

record url_record =
  url_id :: nat
  url_fqdn :: string

text \<open>\<^verbatim>\<open>PulsesDto\<close>: the fields that the service reads.\<close>

record pulses_dto =
  dto_url :: string
  dto_playlistId :: nat

text \<open>
  A membership of \<^verbatim>\<open>user.memberships\<close>: \<^verbatim>\<open>triggerPulse\<close> reads its \<open>id\<close> and no
  other attribute.
\<close>

record membership =
  membership_id :: nat

record user =
  user_id :: nat
  memberships :: "membership list"

text \<open>The object handed to \<^verbatim>\<open>JSON.stringify\<close>, and the parameters of the invoke command.\<close>

record payload =
  payload_url :: string
  payload_membership_id :: nat
  isBeta :: bool

record invoke_params =
  FunctionName :: "string option"
  Payload :: payload

datatype log_entry =
    CreatedPulse nat string
  | ErrorInvokingLambda error

text \<open>
  The collaborators that the service calls and that are not among the sources are
  parameters: the URL canonicaliser \<^verbatim>\<open>prependWWW\<close>, the Url lookup
  \<^verbatim>\<open>urlsService.urlByFQDN\<close> (a null record is \<open>None\<close>), the user lookup
  \<^verbatim>\<open>usersService.findUser\<close>, the identifiers that successive calls of
  \<^verbatim>\<open>nanoid()\<close> return, the lambda client (\<open>None\<close> when the invocation succeeds,
  the thrown error otherwise), the two environment variables, whether the table
  rejects a second row with the same slug, and the two calls that \<^verbatim>\<open>createPulse\<close>
  makes after the insert and outside any \<^verbatim>\<open>try\<close>: \<^verbatim>\<open>this.logger.log\<close> and
  \<^verbatim>\<open>notificationsService.refreshPulsesTable\<close> (\<open>None\<close> when the call returns, the
  thrown error otherwise).
\<close>

record env =
  prependWWW :: "string \<Rightarrow> error + string"
  urlByFQDN :: "string \<Rightarrow> error + url_record option"
  findUser :: "nat \<Rightarrow> error + user option"
  nanoid_output :: "nat \<Rightarrow> string"
  lambda_send :: "invoke_params \<Rightarrow> error option"
  ADHOC_TRIGGER_LAMBDA_ARN :: "string option"
  IS_BETA :: "string option"
  slug_is_unique :: bool
  logger_log :: "log_entry \<Rightarrow> error option"
  refreshPulsesTable :: "error option"

record state =
  pulses :: "pulse list"
  next_id :: nat
  nanoid_calls :: nat
  logged :: "log_entry list"
  refreshes :: nat
  invocations :: "invoke_params list"

section \<open>The operations\<close>

text \<open>\<^verbatim>\<open>this.pulse.findOne({ where: { slug } })\<close>: the first row with that slug, or null.\<close>

definition getPulse :: "state \<Rightarrow> string \<Rightarrow> pulse option" where
  "getPulse st s = find (\<lambda>p. slug p = s) (pulses st)"

text \<open>\<^verbatim>\<open>nanoid()\<close>: the next identifier of the generator.\<close>

definition nanoid :: "env \<Rightarrow> state \<Rightarrow> string \<times> state" where
  "nanoid e st = (nanoid_output e (nanoid_calls st), st\<lparr>nanoid_calls := nanoid_calls st + 1\<rparr>)"

text \<open>
  \<^verbatim>\<open>this.pulse.create({ slug, urlId, playlistId })\<close>: one INSERT. The row gets the
  next primary key and the default status; the insert is refused, and the table is left
  as it was, when the slug column is unique and the slug is taken.
\<close>

definition pulse_create :: "env \<Rightarrow> string \<Rightarrow> nat \<Rightarrow> nat \<Rightarrow> state \<Rightarrow> (error + pulse) \<times> state" where
  "pulse_create e s u pl st =
     (if slug_is_unique e \<and> s \<in> set (map slug (pulses st)) then (Inl UniqueConstraintError, st)
      else
        let p = \<lparr>pulse_id = next_id st, slug = s, urlId = u, playlistId = pl,
                 status = default_status\<rparr>
        in (Inr p, st\<lparr>pulses := pulses st @ [p], next_id := next_id st + 1\<rparr>))"

text \<open>
  \<^verbatim>\<open>createPulse(dto)\<close>. A null Url record makes \<^verbatim>\<open>urlRecord.id\<close> throw a TypeError,
  after \<^verbatim>\<open>nanoid()\<close> has been called. The log call and the notification follow the
  awaited insert: when one of them throws, the promise is rejected and the row stays
  in the table.
\<close>

definition createPulse :: "env \<Rightarrow> pulses_dto \<Rightarrow> state \<Rightarrow> (error + pulse) \<times> state" where
  "createPulse e dto st =
     (case prependWWW e (dto_url dto) of
        Inl err \<Rightarrow> (Inl err, st)
      | Inr sanitizedUrl \<Rightarrow>
          (case urlByFQDN e sanitizedUrl of
             Inl err \<Rightarrow> (Inl err, st)
           | Inr urlRecord \<Rightarrow>
               let (s, st1) = nanoid e st in
               (case urlRecord of
                  None \<Rightarrow> (Inl TypeError, st1)
                | Some r \<Rightarrow>
                    (case pulse_create e s (url_id r) (dto_playlistId dto) st1 of
                       (Inl err, st2) \<Rightarrow> (Inl err, st2)
                     | (Inr p, st2) \<Rightarrow>
                         (case logger_log e (CreatedPulse (pulse_id p) s) of
                            Some err \<Rightarrow> (Inl err, st2)
                          | None \<Rightarrow>
                              let st3 = st2\<lparr>logged := logged st2 @ [CreatedPulse (pulse_id p) s]\<rparr> in
                              (case refreshPulsesTable e of
                                 Some err \<Rightarrow> (Inl err, st3)
                               | None \<Rightarrow> (Inr p, st3\<lparr>refreshes := refreshes st3 + 1\<rparr>)))))))"

text \<open>
  Modelled from the spec: the helper \<^verbatim>\<open>prependWWW\<close> (\<^verbatim>\<open>src/utils/pulses\<close>) is not
  among the sources. The spec says that a URL is canonicalized by scheme and \<open>www\<close>
  normalization before it is stored, so the canonical form depends neither on the
  scheme of the input nor on a leading \<open>www.\<close> of its host. The model removes a leading
  scheme and a leading \<open>www.\<close> and puts \<open>https://www.\<close> in front, the helper's name saying
  that \<open>www\<close> is prepended.
\<close>

definition has_prefix :: "string \<Rightarrow> string \<Rightarrow> bool" where
  "has_prefix pre u = (take (length pre) u = pre)"

definition strip_scheme :: "string \<Rightarrow> string" where
  "strip_scheme u =
     (if has_prefix ''https://'' u then drop (length ''https://'') u
      else if has_prefix ''http://'' u then drop (length ''http://'') u
      else u)"

definition strip_www :: "string \<Rightarrow> string" where
  "strip_www u = (if has_prefix ''www.'' u then drop (length ''www.'') u else u)"

definition canonical_url :: "string \<Rightarrow> string" where
  "canonical_url u = ''https://www.'' @ strip_www (strip_scheme u)"

text \<open>
  Modelled from the spec: the service with the canonicaliser of the spec in the place of
  the absent \<^verbatim>\<open>prependWWW\<close>; the prefixes that the normalization removes; and a URL
  without any of them.
\<close>

definition with_canonical_url :: "env \<Rightarrow> env" where
  "with_canonical_url e = e\<lparr>prependWWW := \<lambda>u. Inr (canonical_url u)\<rparr>"

definition schemes :: "string list" where
  "schemes = [[], ''http://'', ''https://'']"

definition www_prefixes :: "string list" where
  "www_prefixes = [[], ''www.'']"

definition bare_url :: "string \<Rightarrow> bool" where
  "bare_url u = (\<not> has_prefix ''https://'' u \<and> \<not> has_prefix ''http://'' u \<and> \<not> has_prefix ''www.'' u)"

text \<open>
  \<^verbatim>\<open>Boolean\<close> applied to an element of \<^verbatim>\<open>user.memberships\<close>: the elements are
  model instances, and every object is truthy.
\<close>

definition Boolean :: "membership \<Rightarrow> bool" where
  "Boolean m = True"

text \<open>
  The object literal \<^verbatim>\<open>params\<close> of \<^verbatim>\<open>triggerPulse\<close>, evaluated before the
  \<^verbatim>\<open>try\<close> block. \<^verbatim>\<open>find\<close> returns undefined when no element is truthy, and
  reading \<^verbatim>\<open>.id\<close> of undefined throws a TypeError.
\<close>

definition trigger_params :: "env \<Rightarrow> pulses_dto \<Rightarrow> user \<Rightarrow> error + invoke_params" where
  "trigger_params e dto u =
     (case find Boolean (memberships u) of
        None \<Rightarrow> Inl TypeError
      | Some m \<Rightarrow>
          Inr \<lparr>FunctionName = ADHOC_TRIGGER_LAMBDA_ARN e,
               Payload = \<lparr>payload_url = dto_url dto,
                          payload_membership_id = membership_id m,
                          isBeta = (IS_BETA e = Some ''true'')\<rparr>\<rparr>)"

text \<open>
  \<^verbatim>\<open>triggerPulse({ url }, { id })\<close>. A null user makes \<^verbatim>\<open>user.memberships\<close> throw.
  The \<^verbatim>\<open>try\<close> block holds the invocation only; its \<^verbatim>\<open>catch\<close> logs the error, and
  the function returns undefined on both paths.
\<close>

definition triggerPulse :: "env \<Rightarrow> pulses_dto \<Rightarrow> user \<Rightarrow> state \<Rightarrow> (error + unit) \<times> state" where
  "triggerPulse e dto requester st =
     (case findUser e (user_id requester) of
        Inl err \<Rightarrow> (Inl err, st)
      | Inr None \<Rightarrow> (Inl TypeError, st)
      | Inr (Some u) \<Rightarrow>
          (case trigger_params e dto u of
             Inl err \<Rightarrow> (Inl err, st)
           | Inr params \<Rightarrow>
               let st1 = st\<lparr>invocations := invocations st @ [params]\<rparr> in
               (case lambda_send e params of
                  None \<Rightarrow> (Inr (), st1)
                | Some err \<Rightarrow> (Inr (), st1\<lparr>logged := logged st1 @ [ErrorInvokingLambda err]\<rparr>))))"

text \<open>
  The controller's \<^verbatim>\<open>@Post() createPulse(dto, { user })\<close>: it returns what
  \<^verbatim>\<open>triggerPulse\<close> returns.
\<close>

definition controller_createPulse :: "env \<Rightarrow> pulses_dto \<Rightarrow> user \<Rightarrow> state \<Rightarrow> (error + unit) \<times> state" where
  "controller_createPulse e dto requester st = triggerPulse e dto requester st"

text \<open>The controller's \<^verbatim>\<open>@Get(':slug') getPulse(slug)\<close>.\<close>

definition controller_getPulse :: "state \<Rightarrow> string \<Rightarrow> pulse option" where
  "controller_getPulse st s = getPulse st s"

section \<open>The orchestration core described by the spec\<close>

text \<open>
  Modelled from the spec: the functions that change a pulse's status and take in
  heartbeats are not among the sources. The definitions of this section follow the
  words of the spec: the Pulse Store's \<open>transition\<close> (section 4.2), the Heartbeat
  Aggregator's \<open>ingest\<close> (section 4.3) and the Reaper (section 4.6). Time is a natural
  number; the completion timeout is a parameter.
\<close>

record tracked_pulse =
  tp_id :: nat
  tp_status :: status
  expected_slots :: nat
  createdAt :: nat

record heartbeat =
  hb_pulseId :: nat
  hb_slotId :: nat
  hb_payload :: string

datatype rejection = PulseNotFound | PulseTerminal

datatype outcome = Accepted | Duplicate | Rejected rejection

text \<open>
  Modelled from the spec: the store of the orchestration core, which is not among the
  sources. It holds the pulses, the accepted heartbeats, the heartbeats recorded for
  audit only, and the pulses handed to \<open>finalize\<close>.
\<close>

record store =
  tracked :: "tracked_pulse list"
  heartbeats :: "heartbeat list"
  audit :: "heartbeat list"
  finalized :: "nat list"

text \<open>
  Modelled from the spec: the terminal statuses are Completed, PartialFailure and
  TimedOut; a pulse is looked up by its id.
\<close>

definition terminal :: "status \<Rightarrow> bool" where
  "terminal s = (s = Completed \<or> s = PartialFailure \<or> s = TimedOut)"

definition lookup_pulse :: "store \<Rightarrow> nat \<Rightarrow> tracked_pulse option" where
  "lookup_pulse st pid = find (\<lambda>p. tp_id p = pid) (tracked st)"

definition status_of :: "store \<Rightarrow> nat \<Rightarrow> status option" where
  "status_of st pid = map_option tp_status (lookup_pulse st pid)"

text \<open>
  Modelled from the spec: the Pulse Store's primitive, which is not among the sources.
  \<open>transition(pulseId, fromStatuses, toStatus) -> bool\<close> is a conditional update that
  succeeds only if the current status is one of \<open>fromStatuses\<close>, and is a no-op
  returning false otherwise.
\<close>

definition transition :: "nat \<Rightarrow> status list \<Rightarrow> status \<Rightarrow> store \<Rightarrow> bool \<times> store" where
  "transition pid fromStatuses toStatus st =
     (case lookup_pulse st pid of
        None \<Rightarrow> (False, st)
      | Some p \<Rightarrow>
          if tp_status p \<in> set fromStatuses
          then (True, st\<lparr>tracked :=
                  map (\<lambda>q. if tp_id q = pid then q\<lparr>tp_status := toStatus\<rparr> else q) (tracked st)\<rparr>)
          else (False, st))"

definition hb_key :: "heartbeat \<Rightarrow> nat \<times> nat" where
  "hb_key h = (hb_pulseId h, hb_slotId h)"

text \<open>Modelled from the spec: the accepted-heartbeat count of a pulse.\<close>

definition accepted_count :: "store \<Rightarrow> nat \<Rightarrow> nat" where
  "accepted_count st pid = length (filter (\<lambda>h. hb_pulseId h = pid) (heartbeats st))"

text \<open>
  Modelled from the spec: the Heartbeat Aggregator, which is not among the sources.
  \<open>ingest(pulseId, slotId, payload)\<close>, in the order of the spec's algorithm: look the
  pulse up; reject when it is terminal (the heartbeat is recorded for audit); insert the
  heartbeat under its key, or return Duplicate when the key is taken; move the pulse from
  Pending to InProgress at the first accepted heartbeat; then compare the count with the
  expected slot count and move from InProgress to Completed when they are equal, the
  winning transition handing the pulse to \<open>finalize\<close>.
\<close>

definition ingest :: "nat \<Rightarrow> nat \<Rightarrow> string \<Rightarrow> store \<Rightarrow> outcome \<times> store" where
  "ingest pid slot pl st =
     (let hb = \<lparr>hb_pulseId = pid, hb_slotId = slot, hb_payload = pl\<rparr> in
      case lookup_pulse st pid of
        None \<Rightarrow> (Rejected PulseNotFound, st)
      | Some p \<Rightarrow>
          if terminal (tp_status p) then (Rejected PulseTerminal, st\<lparr>audit := audit st @ [hb]\<rparr>)
          else if (pid, slot) \<in> set (map hb_key (heartbeats st)) then (Duplicate, st)
          else
            let st1 = st\<lparr>heartbeats := heartbeats st @ [hb]\<rparr>;
                st2 = (if accepted_count st1 pid = 1
                       then snd (transition pid [Pending] InProgress st1) else st1);
                st3 = (if accepted_count st2 pid = expected_slots p
                       then (case transition pid [InProgress] Completed st2 of
                               (True, s) \<Rightarrow> s\<lparr>finalized := finalized s @ [pid]\<rparr>
                             | (False, s) \<Rightarrow> s)
                       else st2)
            in (Accepted, st3))"

text \<open>
  Modelled from the spec: the Reaper, which is not among the sources. In its scan at
  time \<open>now\<close>, every pulse in Pending or InProgress that is older
  than the completion timeout is moved to TimedOut through \<open>transition\<close>.
\<close>

definition reap_one :: "nat \<Rightarrow> nat \<Rightarrow> tracked_pulse \<Rightarrow> store \<Rightarrow> store" where
  "reap_one timeout now p st =
     (if (tp_status p = Pending \<or> tp_status p = InProgress) \<and> createdAt p + timeout < now
      then snd (transition (tp_id p) [Pending, InProgress] TimedOut st) else st)"

definition reap :: "nat \<Rightarrow> nat \<Rightarrow> store \<Rightarrow> store" where
  "reap timeout now st = fold (reap_one timeout now) (tracked st) st"

text \<open>
  Modelled from the spec: the operations of the core that reach a pulse, a heartbeat
  delivery and a Reaper scan, and a sequence of them.
\<close>

datatype operation = Ingest nat nat string | Reap nat

fun apply_operation :: "nat \<Rightarrow> operation \<Rightarrow> store \<Rightarrow> store" where
  "apply_operation timeout (Ingest pid slot pl) st = snd (ingest pid slot pl st)"
| "apply_operation timeout (Reap now) st = reap timeout now st"

fun run :: "nat \<Rightarrow> operation list \<Rightarrow> store \<Rightarrow> store" where
  "run timeout [] st = st"
| "run timeout (x # xs) st = run timeout xs (apply_operation timeout x st)"

text \<open>
  Modelled from the spec: the chain Pending, InProgress, then one of Completed,
  PartialFailure and TimedOut:
  its edges, and the statuses reached from a status along the chain (in no step, one
  step or two steps, the chain having no longer path).
\<close>

fun edge :: "status \<Rightarrow> status \<Rightarrow> bool" where
  "edge Pending InProgress = True"
| "edge InProgress Completed = True"
| "edge InProgress PartialFailure = True"
| "edge InProgress TimedOut = True"
| "edge _ _ = False"

definition along :: "status \<Rightarrow> status \<Rightarrow> bool" where
  "along a b = (a = b \<or> edge a b \<or> (edge a InProgress \<and> edge InProgress b))"

section \<open>Example inputs\<close>

text \<open>
  A canonicaliser that adds the \<open>www\<close> prefix to one bare host name, a Url table with
  one record, a generator whose first identifier is \<open>abc\<close>, a lambda client that
  fails when the parameter says so, and a logger and a notification service that
  return; then the same service with a logger that throws, and with a notification
  service that throws.
\<close>

definition example_user :: user where
  "example_user =
     \<lparr>user_id = 1,
      memberships = [\<lparr>membership_id = 7\<rparr>, \<lparr>membership_id = 9\<rparr>]\<rparr>"

definition example_params :: invoke_params where
  "example_params =
     \<lparr>FunctionName = Some ''arn:adhoc'',
      Payload = \<lparr>payload_url = ''https://example.com'', payload_membership_id = 7, isBeta = True\<rparr>\<rparr>"

definition example_env :: "bool \<Rightarrow> bool \<Rightarrow> env" where
  "example_env lambda_fails unique =
     \<lparr>prependWWW = (\<lambda>u. Inr (if u = ''https://example.com'' then ''https://www.example.com'' else u)),
      urlByFQDN = (\<lambda>u. Inr (if u = ''https://www.example.com''
                             then Some \<lparr>url_id = 5, url_fqdn = ''https://www.example.com''\<rparr> else None)),
      findUser = (\<lambda>i. Inr (if i = 1 then Some example_user
                            else if i = 2 then Some \<lparr>user_id = 2, memberships = []\<rparr>
                            else None)),
      nanoid_output = (\<lambda>n. if n = 0 then ''abc'' else ''def''),
      lambda_send = (\<lambda>ps. if lambda_fails then Some (CollaboratorError ''throttled'') else None),
      ADHOC_TRIGGER_LAMBDA_ARN = Some ''arn:adhoc'',
      IS_BETA = Some ''true'',
      slug_is_unique = unique,
      logger_log = (\<lambda>entry. None),
      refreshPulsesTable = None\<rparr>"

definition failing_logger_env :: env where
  "failing_logger_env = (example_env False True)\<lparr>logger_log := \<lambda>entry. Some (CollaboratorError ''disk'')\<rparr>"

definition failing_refresh_env :: env where
  "failing_refresh_env = (example_env False True)\<lparr>refreshPulsesTable := Some (CollaboratorError ''socket'')\<rparr>"

definition example_state :: state where
  "example_state =
     \<lparr>pulses = [\<lparr>pulse_id = 1, slug = ''abc'', urlId = 5, playlistId = 2, status = Pending\<rparr>],
      next_id = 2, nanoid_calls = 0, logged = [], refreshes = 0, invocations = []\<rparr>"

definition fresh_state :: state where
  "fresh_state = \<lparr>pulses = [], next_id = 1, nanoid_calls = 0, logged = [], refreshes = 0, invocations = []\<rparr>"

definition example_dto :: "string \<Rightarrow> pulses_dto" where
  "example_dto u = \<lparr>dto_url = u, dto_playlistId = 3\<rparr>"

definition example_requester :: "nat \<Rightarrow> user" where
  "example_requester i = \<lparr>user_id = i, memberships = []\<rparr>"

definition example_store :: "nat \<Rightarrow> store" where
  "example_store n =
     \<lparr>tracked = [\<lparr>tp_id = 1, tp_status = Pending, expected_slots = n, createdAt = 0\<rparr>],
      heartbeats = [], audit = [], finalized = []\<rparr>"

section \<open>Properties of the service\<close>

subsection \<open>Looking a pulse up\<close>

lemma getPulse_Some_iff:
  "getPulse st s = Some p \<Longrightarrow> slug p = s \<and> p \<in> set (pulses st)"
  unfolding getPulse_def by (auto simp: find_Some_iff)

lemma getPulse_None_iff:
  "getPulse st s = None \<longleftrightarrow> (\<forall>p \<in> set (pulses st). slug p \<noteq> s)"
  unfolding getPulse_def by (auto simp: find_None_iff)

text \<open>
  Claim C5. For every slug, \<open>getPulse\<close> returns a pulse of the table whose slug is
  the argument when the table has one, and the empty outcome (null, no exception and no
  other pulse) when no pulse of the table has that slug.
\<close>

theorem getPulse_found_or_none:
  "(s \<in> set (map slug (pulses st)) \<longrightarrow>
      (\<exists>p. getPulse st s = Some p \<and> slug p = s \<and> p \<in> set (pulses st)))
   \<and> (s \<notin> set (map slug (pulses st)) \<longrightarrow> getPulse st s = None)"
proof (cases "getPulse st s")
  case None
  then show ?thesis using getPulse_None_iff [of st s] by auto
next
  case (Some p)
  then show ?thesis using getPulse_Some_iff [of st s p] by auto
qed

theorem getPulse_found_or_none_witness:
  "''abc'' \<in> set (map slug (pulses example_state))
   \<and> (\<exists>p. getPulse example_state ''abc'' = Some p \<and> slug p = ''abc'' \<and> p \<in> set (pulses example_state))
   \<and> ''zzz'' \<notin> set (map slug (pulses example_state))
   \<and> getPulse example_state ''zzz'' = None"
proof -
  have found: "''abc'' \<in> set (map slug (pulses example_state))"
    by (simp add: example_state_def)
  have missing: "''zzz'' \<notin> set (map slug (pulses example_state))"
    by (simp add: example_state_def)
  from found missing
    getPulse_found_or_none [of "''abc''" example_state]
    getPulse_found_or_none [of "''zzz''" example_state]
  show ?thesis by blast
qed

subsection \<open>Creating a pulse\<close>

text \<open>
  What a call of \<open>createPulse\<close> has done, read off its definition. The row is inserted
  exactly when the Url record is resolved and the insert is not refused; the call can
  still fail after the insert, in the log call or in the notification.
\<close>

lemma createPulse_not_inserted:
  assumes "createPulse e dto st = (r, st')"
    and "\<not> ((\<exists>c u. prependWWW e (dto_url dto) = Inr c \<and> urlByFQDN e c = Inr (Some u))
            \<and> \<not> (slug_is_unique e \<and> nanoid_output e (nanoid_calls st) \<in> set (map slug (pulses st))))"
  shows "pulses st' = pulses st \<and> (\<exists>err. r = Inl err) \<and> nanoid_calls st' \<le> nanoid_calls st + 1"
  using assms
  unfolding createPulse_def nanoid_def pulse_create_def default_status_def
  by (auto simp: Let_def split: sum.splits option.splits if_splits)

lemma createPulse_inserted:
  assumes "createPulse e dto st = (r, st')"
    and "prependWWW e (dto_url dto) = Inr c" and "urlByFQDN e c = Inr (Some u)"
    and "\<not> (slug_is_unique e \<and> nanoid_output e (nanoid_calls st) \<in> set (map slug (pulses st)))"
  shows "pulses st' = pulses st @ [\<lparr>pulse_id = next_id st, slug = nanoid_output e (nanoid_calls st),
                  urlId = url_id u, playlistId = dto_playlistId dto, status = Pending\<rparr>]
    \<and> nanoid_calls st' = nanoid_calls st + 1
    \<and> (case logger_log e (CreatedPulse (next_id st) (nanoid_output e (nanoid_calls st))) of
          Some err \<Rightarrow> r = Inl err
        | None \<Rightarrow> (case refreshPulsesTable e of
                     Some err \<Rightarrow> r = Inl err
                   | None \<Rightarrow> r = Inr \<lparr>pulse_id = next_id st, slug = nanoid_output e (nanoid_calls st),
                  urlId = url_id u, playlistId = dto_playlistId dto, status = Pending\<rparr>))"
  using assms
  unfolding createPulse_def nanoid_def pulse_create_def default_status_def
  by (auto simp: Let_def split: sum.splits option.splits if_splits)

lemma createPulse_Inr:
  assumes "createPulse e dto st = (Inr p, st')"
  shows "\<exists>c u. prependWWW e (dto_url dto) = Inr c \<and> urlByFQDN e c = Inr (Some u)
           \<and> p = \<lparr>pulse_id = next_id st, slug = nanoid_output e (nanoid_calls st),
                  urlId = url_id u, playlistId = dto_playlistId dto, status = Pending\<rparr>
           \<and> pulses st' = pulses st @ [p]
           \<and> \<not> (slug_is_unique e \<and> nanoid_output e (nanoid_calls st) \<in> set (map slug (pulses st)))"
proof (cases "(\<exists>c u. prependWWW e (dto_url dto) = Inr c \<and> urlByFQDN e c = Inr (Some u))
            \<and> \<not> (slug_is_unique e \<and> nanoid_output e (nanoid_calls st) \<in> set (map slug (pulses st)))")
  case False
  from createPulse_not_inserted [OF assms False] show ?thesis by simp
next
  case True
  then obtain c u where cu: "prependWWW e (dto_url dto) = Inr c" "urlByFQDN e c = Inr (Some u)"
    and free: "\<not> (slug_is_unique e \<and> nanoid_output e (nanoid_calls st) \<in> set (map slug (pulses st)))"
    by blast
  from createPulse_inserted [OF assms cu free]
  have "pulses st' = pulses st @ [\<lparr>pulse_id = next_id st, slug = nanoid_output e (nanoid_calls st),
                  urlId = url_id u, playlistId = dto_playlistId dto, status = Pending\<rparr>]" and "p = \<lparr>pulse_id = next_id st, slug = nanoid_output e (nanoid_calls st),
                  urlId = url_id u, playlistId = dto_playlistId dto, status = Pending\<rparr>"
    by (auto split: option.splits)
  with cu free show ?thesis by blast
qed

text \<open>
  Claim C2, as the code has it. \<open>createPulse\<close> takes one identifier from the generator
  and makes one attempt to persist, with no retry: the slug of a created pulse is the
  generator's next identifier, and the generator is asked at most once. When that
  identifier is not the slug of an existing pulse, or when the table enforces unique
  slugs, slugs that were pairwise distinct stay so. When the identifier collides and the
  table enforces unique slugs, the call fails and the table is left as it was.
\<close>

theorem createPulse_single_slug_no_retry:
  assumes "createPulse e dto st = (r, st')"
  shows "nanoid_calls st' \<le> nanoid_calls st + 1
    \<and> (\<forall>p. r = Inr p \<longrightarrow> slug p = nanoid_output e (nanoid_calls st))
    \<and> (distinct (map slug (pulses st))
         \<and> (slug_is_unique e \<or> nanoid_output e (nanoid_calls st) \<notin> set (map slug (pulses st)))
       \<longrightarrow> distinct (map slug (pulses st')))
    \<and> (slug_is_unique e \<and> nanoid_output e (nanoid_calls st) \<in> set (map slug (pulses st))
       \<longrightarrow> (\<exists>err. r = Inl err) \<and> pulses st' = pulses st)"
proof (cases "(\<exists>c u. prependWWW e (dto_url dto) = Inr c \<and> urlByFQDN e c = Inr (Some u))
            \<and> \<not> (slug_is_unique e \<and> nanoid_output e (nanoid_calls st) \<in> set (map slug (pulses st)))")
  case False
  from createPulse_not_inserted [OF assms False] show ?thesis by auto
next
  case True
  then obtain c u where cu: "prependWWW e (dto_url dto) = Inr c" "urlByFQDN e c = Inr (Some u)"
    and free: "\<not> (slug_is_unique e \<and> nanoid_output e (nanoid_calls st) \<in> set (map slug (pulses st)))"
    by blast
  from createPulse_inserted [OF assms cu free]
  have tab: "pulses st' = pulses st @ [\<lparr>pulse_id = next_id st, slug = nanoid_output e (nanoid_calls st),
                  urlId = url_id u, playlistId = dto_playlistId dto, status = Pending\<rparr>]"
    and calls: "nanoid_calls st' = nanoid_calls st + 1"
    and res: "\<forall>p. r = Inr p \<longrightarrow> p = \<lparr>pulse_id = next_id st, slug = nanoid_output e (nanoid_calls st),
                  urlId = url_id u, playlistId = dto_playlistId dto, status = Pending\<rparr>"
    by (auto split: option.splits)
  from calls have c1: "nanoid_calls st' \<le> nanoid_calls st + 1" by simp
  from res have c2: "\<forall>p. r = Inr p \<longrightarrow> slug p = nanoid_output e (nanoid_calls st)" by auto
  from tab free have c3: "distinct (map slug (pulses st))
         \<and> (slug_is_unique e \<or> nanoid_output e (nanoid_calls st) \<notin> set (map slug (pulses st)))
       \<longrightarrow> distinct (map slug (pulses st'))"
    by auto
  from c1 c2 c3 free show ?thesis by blast
qed

theorem createPulse_single_slug_no_retry_witness:
  "createPulse (example_env False True) (example_dto ''https://example.com'') fresh_state
     = (Inr \<lparr>pulse_id = 1, slug = ''abc'', urlId = 5, playlistId = 3, status = Pending\<rparr>,
        \<lparr>pulses = [\<lparr>pulse_id = 1, slug = ''abc'', urlId = 5, playlistId = 3, status = Pending\<rparr>],
         next_id = 2, nanoid_calls = 1, logged = [CreatedPulse 1 ''abc''], refreshes = 1,
         invocations = []\<rparr>)
   \<and> distinct (map slug (pulses fresh_state))
   \<and> nanoid_output (example_env False True) (nanoid_calls fresh_state) \<notin> set (map slug (pulses fresh_state))
   \<and> distinct (map slug [\<lparr>pulse_id = 1, slug = ''abc'', urlId = 5, playlistId = 3, status = Pending\<rparr>])
   \<and> slug_is_unique (example_env False True)
   \<and> nanoid_output (example_env False True) (nanoid_calls example_state) \<in> set (map slug (pulses example_state))
   \<and> (\<exists>err. fst (createPulse (example_env False True) (example_dto ''https://example.com'') example_state) = Inl err)
   \<and> pulses (snd (createPulse (example_env False True) (example_dto ''https://example.com'') example_state))
       = pulses example_state"
proof -
  have run1: "createPulse (example_env False True) (example_dto ''https://example.com'') fresh_state
     = (Inr \<lparr>pulse_id = 1, slug = ''abc'', urlId = 5, playlistId = 3, status = Pending\<rparr>,
        \<lparr>pulses = [\<lparr>pulse_id = 1, slug = ''abc'', urlId = 5, playlistId = 3, status = Pending\<rparr>],
         next_id = 2, nanoid_calls = 1, logged = [CreatedPulse 1 ''abc''], refreshes = 1,
         invocations = []\<rparr>)"
    by (simp add: createPulse_def nanoid_def pulse_create_def default_status_def example_env_def example_dto_def
        fresh_state_def Let_def)
  have run2: "createPulse (example_env False True) (example_dto ''https://example.com'') example_state
     = (fst (createPulse (example_env False True) (example_dto ''https://example.com'') example_state),
        snd (createPulse (example_env False True) (example_dto ''https://example.com'') example_state))"
    by simp
  have pre: "distinct (map slug (pulses fresh_state))"
    "nanoid_output (example_env False True) (nanoid_calls fresh_state) \<notin> set (map slug (pulses fresh_state))"
    "slug_is_unique (example_env False True)"
    "nanoid_output (example_env False True) (nanoid_calls example_state) \<in> set (map slug (pulses example_state))"
    by (simp_all add: example_env_def fresh_state_def example_state_def)
  from pre run1 createPulse_single_slug_no_retry [OF run1] createPulse_single_slug_no_retry [OF run2]
  show ?thesis by simp
qed

text \<open>
  Claim C2, as stated, fails where the generator returns a slug that is taken. With a
  unique slug column the call fails instead of generating another slug, although the
  generator's next identifier is free; without one a second pulse with the same slug
  is persisted.
\<close>

theorem createPulse_collision_counterexample:
  "fst (createPulse (example_env False True) (example_dto ''https://example.com'') example_state)
     = Inl UniqueConstraintError
   \<and> nanoid_calls (snd (createPulse (example_env False True) (example_dto ''https://example.com'') example_state)) = 1
   \<and> nanoid_output (example_env False True) 1 \<notin> set (map slug (pulses example_state))
   \<and> map slug (pulses (snd (createPulse (example_env False False) (example_dto ''https://example.com'') example_state)))
     = [''abc'', ''abc'']"
  by (simp add: createPulse_def nanoid_def pulse_create_def default_status_def example_env_def example_dto_def
      example_state_def Let_def)

text \<open>
  Claim C6. Whatever the outcome of a call of \<open>createPulse\<close>, the table is either as it
  was or has exactly one more row, and that row is complete: its status is Pending, its
  playlist is the playlist of the request and its \<open>urlId\<close> is the id of the Url record
  resolved for the canonicalised URL. A pulse that the call returns is that row. The
  row is persisted whenever the Url record is resolved and the insert is not refused,
  and it is returned when, besides, the log call and the notification return.
\<close>

theorem createPulse_persists_pending_pulse:
  assumes "createPulse e dto st = (r, st')"
  shows "(pulses st' = pulses st
          \<or> (\<exists>p c u. pulses st' = pulses st @ [p] \<and> status p = Pending
                \<and> playlistId p = dto_playlistId dto
                \<and> prependWWW e (dto_url dto) = Inr c \<and> urlByFQDN e c = Inr (Some u)
                \<and> urlId p = url_id u))
    \<and> (\<forall>p. r = Inr p \<longrightarrow> pulses st' = pulses st @ [p] \<and> status p = Pending)
    \<and> (\<forall>c u. prependWWW e (dto_url dto) = Inr c \<and> urlByFQDN e c = Inr (Some u)
            \<and> \<not> (slug_is_unique e \<and> nanoid_output e (nanoid_calls st) \<in> set (map slug (pulses st)))
          \<longrightarrow> pulses st' = pulses st @ [\<lparr>pulse_id = next_id st, slug = nanoid_output e (nanoid_calls st),
                  urlId = url_id u, playlistId = dto_playlistId dto, status = Pending\<rparr>]
              \<and> (logger_log e (CreatedPulse (next_id st) (nanoid_output e (nanoid_calls st))) = None
                   \<and> refreshPulsesTable e = None
                 \<longrightarrow> r = Inr \<lparr>pulse_id = next_id st, slug = nanoid_output e (nanoid_calls st),
                  urlId = url_id u, playlistId = dto_playlistId dto, status = Pending\<rparr>))"
proof -
  have table: "pulses st' = pulses st
          \<or> (\<exists>p c u. pulses st' = pulses st @ [p] \<and> status p = Pending
                \<and> playlistId p = dto_playlistId dto
                \<and> prependWWW e (dto_url dto) = Inr c \<and> urlByFQDN e c = Inr (Some u)
                \<and> urlId p = url_id u)"
  proof (cases "(\<exists>c u. prependWWW e (dto_url dto) = Inr c \<and> urlByFQDN e c = Inr (Some u))
            \<and> \<not> (slug_is_unique e \<and> nanoid_output e (nanoid_calls st) \<in> set (map slug (pulses st)))")
    case False
    from createPulse_not_inserted [OF assms False] show ?thesis by simp
  next
    case True
    then obtain c u where cu: "prependWWW e (dto_url dto) = Inr c" "urlByFQDN e c = Inr (Some u)"
      and free: "\<not> (slug_is_unique e \<and> nanoid_output e (nanoid_calls st) \<in> set (map slug (pulses st)))"
      by blast
    from createPulse_inserted [OF assms cu free]
    have "pulses st' = pulses st @ [\<lparr>pulse_id = next_id st, slug = nanoid_output e (nanoid_calls st),
                  urlId = url_id u, playlistId = dto_playlistId dto, status = Pending\<rparr>]" by simp
    with cu have "\<exists>p c u. pulses st' = pulses st @ [p] \<and> status p = Pending
                \<and> playlistId p = dto_playlistId dto
                \<and> prependWWW e (dto_url dto) = Inr c \<and> urlByFQDN e c = Inr (Some u)
                \<and> urlId p = url_id u"
      by (intro exI [of _ "\<lparr>pulse_id = next_id st, slug = nanoid_output e (nanoid_calls st),
                  urlId = url_id u, playlistId = dto_playlistId dto, status = Pending\<rparr>"] exI [of _ c] exI [of _ u]) simp
    then show ?thesis by (rule disjI2)
  qed
  have returned: "\<forall>p. r = Inr p \<longrightarrow> pulses st' = pulses st @ [p] \<and> status p = Pending"
  proof (intro allI impI)
    fix p
    assume "r = Inr p"
    with assms have ok: "createPulse e dto st = (Inr p, st')" by simp
    from createPulse_Inr [OF ok] show "pulses st' = pulses st @ [p] \<and> status p = Pending"
      by auto
  qed
  have persisted: "\<forall>c u. prependWWW e (dto_url dto) = Inr c \<and> urlByFQDN e c = Inr (Some u)
            \<and> \<not> (slug_is_unique e \<and> nanoid_output e (nanoid_calls st) \<in> set (map slug (pulses st)))
          \<longrightarrow> pulses st' = pulses st @ [\<lparr>pulse_id = next_id st, slug = nanoid_output e (nanoid_calls st),
                  urlId = url_id u, playlistId = dto_playlistId dto, status = Pending\<rparr>]
              \<and> (logger_log e (CreatedPulse (next_id st) (nanoid_output e (nanoid_calls st))) = None
                   \<and> refreshPulsesTable e = None
                 \<longrightarrow> r = Inr \<lparr>pulse_id = next_id st, slug = nanoid_output e (nanoid_calls st),
                  urlId = url_id u, playlistId = dto_playlistId dto, status = Pending\<rparr>)"
  proof (intro allI impI)
    fix c u
    assume h: "prependWWW e (dto_url dto) = Inr c \<and> urlByFQDN e c = Inr (Some u)
            \<and> \<not> (slug_is_unique e \<and> nanoid_output e (nanoid_calls st) \<in> set (map slug (pulses st)))"
    then have cu: "prependWWW e (dto_url dto) = Inr c" "urlByFQDN e c = Inr (Some u)"
      and free: "\<not> (slug_is_unique e \<and> nanoid_output e (nanoid_calls st) \<in> set (map slug (pulses st)))"
      by simp_all
    from createPulse_inserted [OF assms cu free]
    show "pulses st' = pulses st @ [\<lparr>pulse_id = next_id st, slug = nanoid_output e (nanoid_calls st),
                  urlId = url_id u, playlistId = dto_playlistId dto, status = Pending\<rparr>]
              \<and> (logger_log e (CreatedPulse (next_id st) (nanoid_output e (nanoid_calls st))) = None
                   \<and> refreshPulsesTable e = None
                 \<longrightarrow> r = Inr \<lparr>pulse_id = next_id st, slug = nanoid_output e (nanoid_calls st),
                  urlId = url_id u, playlistId = dto_playlistId dto, status = Pending\<rparr>)"
      by (auto split: option.splits)
  qed
  show ?thesis
    by (intro conjI) (rule table, rule returned, rule persisted)
qed

theorem createPulse_persists_pending_pulse_witness:
  "createPulse (example_env False True) (example_dto ''https://example.com'') fresh_state
     = (Inr \<lparr>pulse_id = 1, slug = ''abc'', urlId = 5, playlistId = 3, status = Pending\<rparr>,
        \<lparr>pulses = [\<lparr>pulse_id = 1, slug = ''abc'', urlId = 5, playlistId = 3, status = Pending\<rparr>],
         next_id = 2, nanoid_calls = 1, logged = [CreatedPulse 1 ''abc''], refreshes = 1,
         invocations = []\<rparr>)
   \<and> status \<lparr>pulse_id = 1, slug = ''abc'', urlId = 5, playlistId = 3, status = Pending\<rparr> = Pending
   \<and> dto_playlistId (example_dto ''https://example.com'') = 3
   \<and> prependWWW (example_env False True) (dto_url (example_dto ''https://example.com''))
       = Inr ''https://www.example.com''
   \<and> urlByFQDN (example_env False True) ''https://www.example.com''
       = Inr (Some \<lparr>url_id = 5, url_fqdn = ''https://www.example.com''\<rparr>)
   \<and> nanoid_output (example_env False True) (nanoid_calls fresh_state) \<notin> set (map slug (pulses fresh_state))
   \<and> logger_log (example_env False True) (CreatedPulse 1 ''abc'') = None
   \<and> refreshPulsesTable (example_env False True) = None
   \<and> createPulse (example_env False True) (example_dto ''https://example.com'') example_state
     = (Inl UniqueConstraintError, example_state\<lparr>nanoid_calls := 1\<rparr>)
   \<and> pulses (example_state\<lparr>nanoid_calls := 1\<rparr>) = pulses example_state
   \<and> createPulse failing_logger_env (example_dto ''https://example.com'') fresh_state
     = (Inl (CollaboratorError ''disk''),
        \<lparr>pulses = [\<lparr>pulse_id = 1, slug = ''abc'', urlId = 5, playlistId = 3, status = Pending\<rparr>],
         next_id = 2, nanoid_calls = 1, logged = [], refreshes = 0, invocations = []\<rparr>)
   \<and> createPulse failing_refresh_env (example_dto ''https://example.com'') fresh_state
     = (Inl (CollaboratorError ''socket''),
        \<lparr>pulses = [\<lparr>pulse_id = 1, slug = ''abc'', urlId = 5, playlistId = 3, status = Pending\<rparr>],
         next_id = 2, nanoid_calls = 1, logged = [CreatedPulse 1 ''abc''], refreshes = 0,
         invocations = []\<rparr>)"
proof -
  have ok: "createPulse (example_env False True) (example_dto ''https://example.com'') fresh_state
     = (Inr \<lparr>pulse_id = 1, slug = ''abc'', urlId = 5, playlistId = 3, status = Pending\<rparr>,
        \<lparr>pulses = [\<lparr>pulse_id = 1, slug = ''abc'', urlId = 5, playlistId = 3, status = Pending\<rparr>],
         next_id = 2, nanoid_calls = 1, logged = [CreatedPulse 1 ''abc''], refreshes = 1,
         invocations = []\<rparr>)"
    by (simp add: createPulse_def nanoid_def pulse_create_def default_status_def example_env_def example_dto_def fresh_state_def Let_def)
  have refused: "createPulse (example_env False True) (example_dto ''https://example.com'') example_state
     = (Inl UniqueConstraintError, example_state\<lparr>nanoid_calls := 1\<rparr>)"
    by (simp add: createPulse_def nanoid_def pulse_create_def default_status_def example_env_def example_dto_def example_state_def Let_def)
  have log_throws: "createPulse failing_logger_env (example_dto ''https://example.com'') fresh_state
     = (Inl (CollaboratorError ''disk''),
        \<lparr>pulses = [\<lparr>pulse_id = 1, slug = ''abc'', urlId = 5, playlistId = 3, status = Pending\<rparr>],
         next_id = 2, nanoid_calls = 1, logged = [], refreshes = 0, invocations = []\<rparr>)"
    by (simp add: createPulse_def nanoid_def pulse_create_def default_status_def example_env_def example_dto_def failing_logger_env_def fresh_state_def Let_def)
  have refresh_throws: "createPulse failing_refresh_env (example_dto ''https://example.com'') fresh_state
     = (Inl (CollaboratorError ''socket''),
        \<lparr>pulses = [\<lparr>pulse_id = 1, slug = ''abc'', urlId = 5, playlistId = 3, status = Pending\<rparr>],
         next_id = 2, nanoid_calls = 1, logged = [CreatedPulse 1 ''abc''], refreshes = 0,
         invocations = []\<rparr>)"
    by (simp add: createPulse_def nanoid_def pulse_create_def default_status_def example_env_def example_dto_def failing_refresh_env_def fresh_state_def Let_def)
  have resolved: "dto_playlistId (example_dto ''https://example.com'') = 3"
    "prependWWW (example_env False True) (dto_url (example_dto ''https://example.com''))
       = Inr ''https://www.example.com''"
    "urlByFQDN (example_env False True) ''https://www.example.com''
       = Inr (Some \<lparr>url_id = 5, url_fqdn = ''https://www.example.com''\<rparr>)"
    "nanoid_output (example_env False True) (nanoid_calls fresh_state) \<notin> set (map slug (pulses fresh_state))"
    "logger_log (example_env False True) (CreatedPulse 1 ''abc'') = None"
    "refreshPulsesTable (example_env False True) = None"
    by (simp_all add: example_env_def example_dto_def fresh_state_def)
  from ok refused log_throws refresh_throws resolved
    createPulse_persists_pending_pulse [OF ok]
    createPulse_persists_pending_pulse [OF refused]
    createPulse_persists_pending_pulse [OF log_throws]
    createPulse_persists_pending_pulse [OF refresh_throws]
  show ?thesis by simp
qed

lemma createPulse_succeeds:
  assumes "prependWWW e (dto_url dto) = Inr c" and "urlByFQDN e c = Inr (Some u)"
    and "\<not> (slug_is_unique e \<and> nanoid_output e (nanoid_calls st) \<in> set (map slug (pulses st)))"
    and "logger_log e (CreatedPulse (next_id st) (nanoid_output e (nanoid_calls st))) = None"
    and "refreshPulsesTable e = None"
  shows "createPulse e dto st
    = (Inr \<lparr>pulse_id = next_id st, slug = nanoid_output e (nanoid_calls st),
            urlId = url_id u, playlistId = dto_playlistId dto, status = Pending\<rparr>,
       st\<lparr>pulses := pulses st @ [\<lparr>pulse_id = next_id st, slug = nanoid_output e (nanoid_calls st),
                                   urlId = url_id u, playlistId = dto_playlistId dto, status = Pending\<rparr>],
          next_id := next_id st + 1,
          nanoid_calls := nanoid_calls st + 1,
          logged := logged st @ [CreatedPulse (next_id st) (nanoid_output e (nanoid_calls st))],
          refreshes := refreshes st + 1\<rparr>)"
  using assms
  unfolding createPulse_def nanoid_def pulse_create_def default_status_def
  by (auto simp: Let_def)

lemma canonical_url_prefixed:
  assumes "s \<in> set schemes" and "w \<in> set www_prefixes" and "bare_url rest"
  shows "canonical_url (s @ w @ rest) = ''https://www.'' @ rest"
  using assms
  by (auto simp: schemes_def www_prefixes_def canonical_url_def strip_scheme_def strip_www_def
      has_prefix_def bare_url_def)

text \<open>
  Claim C7. With the canonicaliser of the spec, \<open>createPulse\<close> canonicalises the URL of
  the request before it resolves the Url record. Two URLs that differ only by the
  scheme and by the \<open>www.\<close> in front of the same rest have the same canonical form; when
  the Url record of that form exists and nothing else fails, both requests, made in the
  same state, succeed with the same outcome, and the created pulse carries the id of
  that record.
\<close>

theorem createPulse_canonical_url:
  assumes "s1 \<in> set schemes" and "w1 \<in> set www_prefixes"
    and "s2 \<in> set schemes" and "w2 \<in> set www_prefixes"
    and "bare_url rest"
    and "urlByFQDN e (''https://www.'' @ rest) = Inr (Some u)"
    and "\<not> (slug_is_unique e \<and> nanoid_output e (nanoid_calls st) \<in> set (map slug (pulses st)))"
    and "logger_log e (CreatedPulse (next_id st) (nanoid_output e (nanoid_calls st))) = None"
    and "refreshPulsesTable e = None"
  shows "canonical_url (s1 @ w1 @ rest) = canonical_url (s2 @ w2 @ rest)
    \<and> createPulse (with_canonical_url e) \<lparr>dto_url = s1 @ w1 @ rest, dto_playlistId = pl\<rparr> st
      = (Inr \<lparr>pulse_id = next_id st, slug = nanoid_output e (nanoid_calls st),
              urlId = url_id u, playlistId = pl, status = Pending\<rparr>,
         st\<lparr>pulses := pulses st @ [\<lparr>pulse_id = next_id st, slug = nanoid_output e (nanoid_calls st),
                                     urlId = url_id u, playlistId = pl, status = Pending\<rparr>],
            next_id := next_id st + 1,
            nanoid_calls := nanoid_calls st + 1,
            logged := logged st @ [CreatedPulse (next_id st) (nanoid_output e (nanoid_calls st))],
            refreshes := refreshes st + 1\<rparr>)
    \<and> createPulse (with_canonical_url e) \<lparr>dto_url = s2 @ w2 @ rest, dto_playlistId = pl\<rparr> st
      = createPulse (with_canonical_url e) \<lparr>dto_url = s1 @ w1 @ rest, dto_playlistId = pl\<rparr> st"
proof -
  let ?e = "with_canonical_url e"
  have c1: "canonical_url (s1 @ w1 @ rest) = ''https://www.'' @ rest"
    using assms(1,2,5) by (rule canonical_url_prefixed)
  have c2: "canonical_url (s2 @ w2 @ rest) = ''https://www.'' @ rest"
    using assms(3,4,5) by (rule canonical_url_prefixed)
  have p1: "prependWWW ?e (dto_url \<lparr>dto_url = s1 @ w1 @ rest, dto_playlistId = pl\<rparr>)
      = Inr (''https://www.'' @ rest)"
    using c1 by (simp add: with_canonical_url_def)
  have p2: "prependWWW ?e (dto_url \<lparr>dto_url = s2 @ w2 @ rest, dto_playlistId = pl\<rparr>)
      = Inr (''https://www.'' @ rest)"
    using c2 by (simp add: with_canonical_url_def)
  have u: "urlByFQDN ?e (''https://www.'' @ rest) = Inr (Some u)"
    using assms(6) by (simp add: with_canonical_url_def)
  have free: "\<not> (slug_is_unique ?e \<and> nanoid_output ?e (nanoid_calls st) \<in> set (map slug (pulses st)))"
    using assms(7) by (simp add: with_canonical_url_def)
  have quiet: "logger_log ?e (CreatedPulse (next_id st) (nanoid_output ?e (nanoid_calls st))) = None"
    "refreshPulsesTable ?e = None"
    using assms(8,9) by (simp_all add: with_canonical_url_def)
  have same: "nanoid_output ?e = nanoid_output e"
    by (simp add: with_canonical_url_def)
  from createPulse_succeeds [OF p1 u free quiet] createPulse_succeeds [OF p2 u free quiet] c1 c2 same
  show ?thesis by simp
qed

theorem createPulse_canonical_url_witness:
  "''http://'' \<in> set schemes \<and> [] \<in> set www_prefixes
   \<and> ''https://'' \<in> set schemes \<and> ''www.'' \<in> set www_prefixes
   \<and> bare_url ''example.com''
   \<and> urlByFQDN (example_env False True) ''https://www.example.com''
       = Inr (Some \<lparr>url_id = 5, url_fqdn = ''https://www.example.com''\<rparr>)
   \<and> nanoid_output (example_env False True) (nanoid_calls fresh_state) \<notin> set (map slug (pulses fresh_state))
   \<and> logger_log (example_env False True) (CreatedPulse 1 ''abc'') = None
   \<and> refreshPulsesTable (example_env False True) = None
   \<and> canonical_url ''http://example.com'' = ''https://www.example.com''
   \<and> canonical_url ''https://www.example.com'' = ''https://www.example.com''
   \<and> createPulse (with_canonical_url (example_env False True))
        \<lparr>dto_url = ''http://example.com'', dto_playlistId = 3\<rparr> fresh_state
     = (Inr \<lparr>pulse_id = 1, slug = ''abc'', urlId = 5, playlistId = 3, status = Pending\<rparr>,
        \<lparr>pulses = [\<lparr>pulse_id = 1, slug = ''abc'', urlId = 5, playlistId = 3, status = Pending\<rparr>],
         next_id = 2, nanoid_calls = 1, logged = [CreatedPulse 1 ''abc''], refreshes = 1,
         invocations = []\<rparr>)
   \<and> createPulse (with_canonical_url (example_env False True))
        \<lparr>dto_url = ''https://www.example.com'', dto_playlistId = 3\<rparr> fresh_state
     = (Inr \<lparr>pulse_id = 1, slug = ''abc'', urlId = 5, playlistId = 3, status = Pending\<rparr>,
        \<lparr>pulses = [\<lparr>pulse_id = 1, slug = ''abc'', urlId = 5, playlistId = 3, status = Pending\<rparr>],
         next_id = 2, nanoid_calls = 1, logged = [CreatedPulse 1 ''abc''], refreshes = 1,
         invocations = []\<rparr>)"
proof -
  have s1: "''http://'' \<in> set schemes" and s2: "''https://'' \<in> set schemes"
    by (simp_all add: schemes_def)
  have w1: "[] \<in> set www_prefixes" and w2: "''www.'' \<in> set www_prefixes"
    by (simp_all add: www_prefixes_def)
  have bare: "bare_url ''example.com''"
    by (simp add: bare_url_def has_prefix_def)
  have found: "urlByFQDN (example_env False True) (''https://www.'' @ ''example.com'')
       = Inr (Some \<lparr>url_id = 5, url_fqdn = ''https://www.example.com''\<rparr>)"
    by (simp add: example_env_def)
  have free: "\<not> (slug_is_unique (example_env False True)
      \<and> nanoid_output (example_env False True) (nanoid_calls fresh_state) \<in> set (map slug (pulses fresh_state)))"
    by (simp add: fresh_state_def)
  have quiet: "logger_log (example_env False True)
        (CreatedPulse (next_id fresh_state) (nanoid_output (example_env False True) (nanoid_calls fresh_state))) = None"
    "refreshPulsesTable (example_env False True) = None"
    by (simp_all add: example_env_def)
  have concrete: "next_id fresh_state = 1" "nanoid_calls fresh_state = 0"
    "nanoid_output (example_env False True) 0 = ''abc''"
    "pulses fresh_state = []" "logged fresh_state = []" "refreshes fresh_state = 0"
    "logger_log (example_env False True) (CreatedPulse 1 ''abc'') = None"
    by (simp_all add: fresh_state_def example_env_def)
  have canon: "canonical_url ''http://example.com'' = ''https://www.example.com''"
    "canonical_url ''https://www.example.com'' = ''https://www.example.com''"
    by (simp_all add: canonical_url_def strip_scheme_def strip_www_def has_prefix_def)
  from s1 s2 w1 w2 bare found quiet concrete canon
    createPulse_canonical_url [OF s1 w1 s2 w2 bare found free quiet, of 3]
  show ?thesis by (simp add: fresh_state_def)
qed

subsection \<open>Triggering a pulse\<close>



text \<open>
  Claim C3 fails on the code: the create-pulse request of the controller returns what
  \<open>triggerPulse\<close> returns, which is the undefined value and carries no slug. At this
  request the worker is invoked, no pulse is created and nothing is returned.
\<close>

theorem controller_createPulse_returns_nothing:
  "controller_createPulse (example_env False True) (example_dto ''https://example.com'')
      (example_requester 1) fresh_state
     = (Inr (), fresh_state\<lparr>invocations := [example_params]\<rparr>)
   \<and> pulses (snd (controller_createPulse (example_env False True) (example_dto ''https://example.com'')
      (example_requester 1) fresh_state)) = []"
  by (simp add: controller_createPulse_def triggerPulse_def trigger_params_def Boolean_def
      example_env_def example_dto_def example_requester_def example_user_def example_params_def
      fresh_state_def Let_def)

lemma find_Boolean_Cons: "find Boolean (m # ms) = Some m"
  by (simp add: Boolean_def)

text \<open>
  Claim C4. For a user with one or more memberships, \<open>triggerPulse\<close> attempts one
  invocation, and the membership identifier of its payload is the id of the first
  membership of the requester's collection: the one that \<^verbatim>\<open>find(Boolean)\<close> selects,
  every loaded membership passing that test.
\<close>

theorem triggerPulse_uses_first_membership:
  assumes "findUser e (user_id requester) = Inr (Some u)"
    and "memberships u = m # ms"
  shows "find Boolean (memberships u) = Some m
    \<and> triggerPulse e dto requester st
      = (Inr (),
         (st\<lparr>invocations := invocations st @
               [\<lparr>FunctionName = ADHOC_TRIGGER_LAMBDA_ARN e,
                 Payload = \<lparr>payload_url = dto_url dto, payload_membership_id = membership_id m,
                            isBeta = (IS_BETA e = Some ''true'')\<rparr>\<rparr>]\<rparr>)
           \<lparr>logged := logged st @
               (case lambda_send e \<lparr>FunctionName = ADHOC_TRIGGER_LAMBDA_ARN e,
                       Payload = \<lparr>payload_url = dto_url dto, payload_membership_id = membership_id m,
                                  isBeta = (IS_BETA e = Some ''true'')\<rparr>\<rparr> of
                  None \<Rightarrow> [] | Some err \<Rightarrow> [ErrorInvokingLambda err])\<rparr>)"
proof -
  from assms(2) have first: "find Boolean (memberships u) = Some m"
    by (simp only: find_Boolean_Cons)
  then have "trigger_params e dto u
      = Inr \<lparr>FunctionName = ADHOC_TRIGGER_LAMBDA_ARN e,
             Payload = \<lparr>payload_url = dto_url dto, payload_membership_id = membership_id m,
                        isBeta = (IS_BETA e = Some ''true'')\<rparr>\<rparr>"
    unfolding trigger_params_def by (simp only: option.case)
  with assms(1) first show ?thesis
    unfolding triggerPulse_def by (simp add: Let_def split: option.splits)
qed

theorem triggerPulse_uses_first_membership_witness:
  "findUser (example_env False True) (user_id (example_requester 1)) = Inr (Some example_user)
   \<and> memberships example_user = \<lparr>membership_id = 7\<rparr> # [\<lparr>membership_id = 9\<rparr>]
   \<and> find Boolean (memberships example_user) = Some \<lparr>membership_id = 7\<rparr>
   \<and> triggerPulse (example_env False True) (example_dto ''https://example.com'')
        (example_requester 1) fresh_state
     = (Inr (), fresh_state\<lparr>invocations :=
          [\<lparr>FunctionName = Some ''arn:adhoc'',
            Payload = \<lparr>payload_url = ''https://example.com'', payload_membership_id = 7,
                       isBeta = True\<rparr>\<rparr>]\<rparr>)"
proof -
  have found: "findUser (example_env False True) (user_id (example_requester 1)) = Inr (Some example_user)"
    by (simp add: example_env_def example_requester_def)
  have first: "memberships example_user = \<lparr>membership_id = 7\<rparr> # [\<lparr>membership_id = 9\<rparr>]"
    by (simp add: example_user_def)
  have concrete: "ADHOC_TRIGGER_LAMBDA_ARN (example_env False True) = Some ''arn:adhoc''"
    "IS_BETA (example_env False True) = Some ''true''"
    "\<And>ps. lambda_send (example_env False True) ps = None"
    "dto_url (example_dto ''https://example.com'') = ''https://example.com''"
    by (simp_all add: example_env_def example_dto_def)
  from found first concrete
    triggerPulse_uses_first_membership [OF found first,
      of "example_dto ''https://example.com''" fresh_state]
  show ?thesis by (simp add: fresh_state_def)
qed

text \<open>
  Claim C10. For a user whose collection of memberships is empty, \<open>triggerPulse\<close>
  throws a TypeError while it builds the parameters, before the \<open>try\<close> block: the
  error reaches the caller, and the state is as it was, with no invocation attempted and
  nothing logged.
\<close>

theorem triggerPulse_no_membership_throws:
  assumes "findUser e (user_id requester) = Inr (Some u)"
    and "memberships u = []"
  shows "triggerPulse e dto requester st = (Inl TypeError, st)"
  using assms unfolding triggerPulse_def trigger_params_def by simp

theorem triggerPulse_no_membership_throws_witness:
  "findUser (example_env True True) (user_id (example_requester 2))
     = Inr (Some \<lparr>user_id = 2, memberships = []\<rparr>)
   \<and> memberships \<lparr>user_id = 2, memberships = []\<rparr> = []
   \<and> triggerPulse (example_env True True) (example_dto ''https://example.com'')
        (example_requester 2) fresh_state = (Inl TypeError, fresh_state)
   \<and> invocations fresh_state = [] \<and> logged fresh_state = []"
proof -
  have found: "findUser (example_env True True) (user_id (example_requester 2))
     = Inr (Some \<lparr>user_id = 2, memberships = []\<rparr>)"
    by (simp add: example_env_def example_requester_def)
  have none: "memberships \<lparr>user_id = 2, memberships = []\<rparr> = []"
    by simp
  from found triggerPulse_no_membership_throws [OF found none,
      of "example_dto ''https://example.com''" fresh_state]
  show ?thesis by (simp add: fresh_state_def)
qed

section \<open>Properties of the orchestration core\<close>

subsection \<open>The chain of statuses\<close>

lemma along_refl: "along a a"
  by (simp add: along_def)

lemma along_trans: "along a b \<Longrightarrow> along b c \<Longrightarrow> along a c"
  by (cases a; cases b; cases c; simp add: along_def)

lemma along_terminal: "terminal a \<Longrightarrow> along a b \<Longrightarrow> b = a"
  by (cases a; cases b; simp add: along_def terminal_def)

lemma along_iff_chain: "along a b \<longleftrightarrow> edge\<^sup>*\<^sup>* a b"
proof
  assume "along a b"
  then consider "a = b" | "edge a b" | "edge a InProgress" "edge InProgress b"
    by (auto simp: along_def)
  then show "edge\<^sup>*\<^sup>* a b"
  proof cases
    case 1
    then show ?thesis by simp
  next
    case 2
    then show ?thesis by (rule r_into_rtranclp)
  next
    case 3
    then show ?thesis by (meson rtranclp.rtrancl_into_rtrancl r_into_rtranclp)
  qed
next
  assume "edge\<^sup>*\<^sup>* a b"
  then show "along a b"
  proof (induction rule: rtranclp_induct)
    case base
    show ?case by (rule along_refl)
  next
    case (step y z)
    from step.hyps(2) have "along y z" by (simp add: along_def)
    with step.IH show ?case by (rule along_trans)
  qed
qed

subsection \<open>How the operations change a status\<close>

lemma lookup_after_update:
  "find (\<lambda>p. tp_id p = pid) (map (\<lambda>q. if tp_id q = pid' then q\<lparr>tp_status := to\<rparr> else q) xs)
     = map_option (\<lambda>q. if pid = pid' then q\<lparr>tp_status := to\<rparr> else q) (find (\<lambda>p. tp_id p = pid) xs)"
  by (induction xs) simp_all

lemma status_of_transition:
  "status_of (snd (transition pid' froms to st)) pid =
     (if pid = pid' \<and> (\<exists>a. status_of st pid = Some a \<and> a \<in> set froms)
      then Some to else status_of st pid)"
  by (auto simp: transition_def status_of_def lookup_pulse_def lookup_after_update
      option.map_comp option.map_ident comp_def split: option.splits)

lemma heartbeats_transition: "heartbeats (snd (transition pid froms to st)) = heartbeats st"
  by (simp add: transition_def split: option.splits)

lemma transition_along:
  assumes "\<forall>f \<in> set froms. along f to" and "status_of st pid = Some a"
  shows "\<exists>b. status_of (snd (transition pid' froms to st)) pid = Some b \<and> along a b"
  using assms by (auto simp: status_of_transition along_refl)

lemma status_of_heartbeats_update: "status_of (st\<lparr>heartbeats := h\<rparr>) pid = status_of st pid"
  by (simp add: status_of_def lookup_pulse_def)

lemma status_of_audit_update: "status_of (st\<lparr>audit := h\<rparr>) pid = status_of st pid"
  by (simp add: status_of_def lookup_pulse_def)

lemma status_of_finalized_update: "status_of (st\<lparr>finalized := h\<rparr>) pid = status_of st pid"
  by (simp add: status_of_def lookup_pulse_def)

lemma status_of_gate:
  "status_of (case t of (True, s) \<Rightarrow> s\<lparr>finalized := finalized s @ [x]\<rparr> | (False, s) \<Rightarrow> s) pid
     = status_of (snd t) pid"
  by (cases t) (simp add: status_of_finalized_update split: bool.splits)

lemma heartbeats_gate:
  "heartbeats (case t of (True, s) \<Rightarrow> s\<lparr>finalized := finalized s @ [x]\<rparr> | (False, s) \<Rightarrow> s)
     = heartbeats (snd t)"
  by (cases t) (simp split: bool.splits)

lemma ingest_along:
  assumes "status_of st pid = Some a"
  shows "\<exists>b. status_of (snd (ingest pid' slot pl st)) pid = Some b \<and> along a b"
proof (cases "lookup_pulse st pid'")
  case None
  with assms show ?thesis by (simp add: ingest_def along_refl)
next
  case (Some p)
  define hb where "hb = \<lparr>hb_pulseId = pid', hb_slotId = slot, hb_payload = pl\<rparr>"
  define st1 where "st1 = st\<lparr>heartbeats := heartbeats st @ [hb]\<rparr>"
  define st2 where "st2 = (if accepted_count st1 pid' = 1
                       then snd (transition pid' [Pending] InProgress st1) else st1)"
  define st3 where "st3 = (if accepted_count st2 pid' = expected_slots p
                       then (case transition pid' [InProgress] Completed st2 of
                               (True, s) \<Rightarrow> s\<lparr>finalized := finalized s @ [pid']\<rparr>
                             | (False, s) \<Rightarrow> s)
                       else st2)"
  from assms have s1: "status_of st1 pid = Some a"
    by (simp add: st1_def status_of_heartbeats_update)
  have "\<exists>b. status_of (snd (transition pid' [Pending] InProgress st1)) pid = Some b \<and> along a b"
    by (rule transition_along [OF _ s1]) (simp add: along_def)
  with s1 have "\<exists>b. status_of st2 pid = Some b \<and> along a b"
    unfolding st2_def by (cases "accepted_count st1 pid' = 1") (simp_all add: along_refl)
  then obtain b where s2: "status_of st2 pid = Some b" and ab: "along a b"
    by blast
  have "\<exists>c. status_of (snd (transition pid' [InProgress] Completed st2)) pid = Some c \<and> along b c"
    by (rule transition_along [OF _ s2]) (simp add: along_def)
  with s2 have "\<exists>c. status_of st3 pid = Some c \<and> along b c"
    unfolding st3_def
    by (cases "accepted_count st2 pid' = expected_slots p") (simp_all add: status_of_gate along_refl)
  then obtain c where s3: "status_of st3 pid = Some c" and bc: "along b c"
    by blast
  from ab bc have ac: "along a c" by (rule along_trans)
  have "snd (ingest pid' slot pl st) = st3 \<or> snd (ingest pid' slot pl st) = st
        \<or> snd (ingest pid' slot pl st) = st\<lparr>audit := audit st @ [hb]\<rparr>"
    using Some by (simp add: ingest_def Let_def st3_def st2_def st1_def hb_def)
  with s3 ac assms show ?thesis
    by (auto simp: status_of_audit_update along_refl)
qed

lemma reap_one_along:
  assumes "status_of st pid = Some a"
  shows "\<exists>b. status_of (reap_one timeout now p st) pid = Some b \<and> along a b"
proof (cases "(tp_status p = Pending \<or> tp_status p = InProgress) \<and> createdAt p + timeout < now")
  case False
  with assms show ?thesis by (auto simp: reap_one_def along_refl)
next
  case True
  have "\<exists>b. status_of (snd (transition (tp_id p) [Pending, InProgress] TimedOut st)) pid = Some b
          \<and> along a b"
    by (rule transition_along [OF _ assms]) (simp add: along_def)
  with True show ?thesis by (simp add: reap_one_def)
qed

lemma fold_reap_one_along:
  "status_of st pid = Some a \<Longrightarrow>
   \<exists>b. status_of (fold (reap_one timeout now) ps st) pid = Some b \<and> along a b"
proof (induction ps arbitrary: st a)
  case Nil
  then show ?case by (simp add: along_refl)
next
  case (Cons p ps)
  from reap_one_along [OF Cons.prems] obtain b where
    b: "status_of (reap_one timeout now p st) pid = Some b" and ab: "along a b"
    by blast
  from Cons.IH [OF b] obtain c where
    c: "status_of (fold (reap_one timeout now) ps (reap_one timeout now p st)) pid = Some c"
    and bc: "along b c"
    by blast
  from ab bc have "along a c" by (rule along_trans)
  with c show ?case by simp
qed

lemma apply_operation_along:
  assumes "status_of st pid = Some a"
  shows "\<exists>b. status_of (apply_operation timeout x st) pid = Some b \<and> along a b"
proof (cases x)
  case (Ingest pid' slot pl)
  with ingest_along [OF assms] show ?thesis by simp
next
  case (Reap now)
  with fold_reap_one_along [OF assms] show ?thesis by (simp add: reap_def)
qed

lemma run_along:
  "status_of st pid = Some a \<Longrightarrow> \<exists>b. status_of (run timeout ops st) pid = Some b \<and> along a b"
proof (induction ops arbitrary: st a)
  case Nil
  then show ?case by (simp add: along_refl)
next
  case (Cons x xs)
  from apply_operation_along [OF Cons.prems] obtain b where
    b: "status_of (apply_operation timeout x st) pid = Some b" and ab: "along a b"
    by blast
  from Cons.IH [OF b] obtain c where
    c: "status_of (run timeout xs (apply_operation timeout x st)) pid = Some c" and bc: "along b c"
    by blast
  from ab bc have "along a c" by (rule along_trans)
  with c show ?case by simp
qed

lemma run_append: "run timeout (xs @ ys) st = run timeout ys (run timeout xs st)"
  by (induction xs arbitrary: st) simp_all

text \<open>
  Claim C8. Take any sequence of heartbeat deliveries and Reaper scans, and any two
  moments of it. The status that a pulse has at the later moment is reached from its
  status at the earlier moment along the chain Pending, InProgress, then one of
  Completed, PartialFailure and TimedOut; and when the earlier status is terminal, the
  later status is the same.
\<close>

theorem status_moves_along_chain:
  assumes "status_of (run timeout ops1 st) pid = Some a"
  shows "\<exists>b. status_of (run timeout (ops1 @ ops2) st) pid = Some b
             \<and> along a b \<and> (terminal a \<longrightarrow> b = a)"
proof -
  from run_along [OF assms, of timeout ops2] obtain b where
    b: "status_of (run timeout ops2 (run timeout ops1 st)) pid = Some b" and ab: "along a b"
    by blast
  from ab have "terminal a \<longrightarrow> b = a" by (auto dest: along_terminal)
  with b ab show ?thesis by (simp add: run_append)
qed

theorem status_moves_along_chain_witness:
  "status_of (run 10 [Ingest 1 1 ''m''] (example_store 2)) 1 = Some InProgress
   \<and> status_of (run 10 ([Ingest 1 1 ''m''] @ [Ingest 1 1 ''m'', Reap 50, Ingest 1 2 ''m''])
         (example_store 2)) 1 = Some TimedOut
   \<and> along InProgress TimedOut
   \<and> status_of (run 10 [Reap 50] (example_store 2)) 1 = Some TimedOut
   \<and> terminal TimedOut
   \<and> status_of (run 10 ([Reap 50] @ [Ingest 1 2 ''m'']) (example_store 2)) 1 = Some TimedOut"
proof -
  have early: "status_of (run 10 [Ingest 1 1 ''m''] (example_store 2)) 1 = Some InProgress"
    by (simp add: ingest_def transition_def lookup_pulse_def status_of_def accepted_count_def
        hb_key_def terminal_def example_store_def Let_def)
  have late: "status_of (run 10 ([Ingest 1 1 ''m''] @ [Ingest 1 1 ''m'', Reap 50, Ingest 1 2 ''m''])
         (example_store 2)) 1 = Some TimedOut"
    by (simp add: ingest_def reap_def reap_one_def transition_def lookup_pulse_def status_of_def
        accepted_count_def hb_key_def terminal_def example_store_def Let_def)
  have reaped: "status_of (run 10 [Reap 50] (example_store 2)) 1 = Some TimedOut"
    by (simp add: reap_def reap_one_def transition_def lookup_pulse_def status_of_def
        example_store_def)
  have final: "terminal TimedOut"
    by (simp add: terminal_def)
  from early late reaped final
    status_moves_along_chain [OF early, of "[Ingest 1 1 ''m'', Reap 50, Ingest 1 2 ''m'']"]
    status_moves_along_chain [OF reaped, of "[Ingest 1 2 ''m'']"]
  show ?thesis by simp
qed

subsection \<open>Accepted heartbeats\<close>

lemma ingest_Accepted_iff:
  "fst (ingest pid slot pl st) = Accepted \<longleftrightarrow>
     (\<exists>p. lookup_pulse st pid = Some p \<and> \<not> terminal (tp_status p))
     \<and> (pid, slot) \<notin> set (map hb_key (heartbeats st))"
  by (simp add: ingest_def Let_def split: option.splits)

lemma heartbeats_ingest:
  "heartbeats (snd (ingest pid slot pl st)) =
     (if fst (ingest pid slot pl st) = Accepted
      then heartbeats st @ [\<lparr>hb_pulseId = pid, hb_slotId = slot, hb_payload = pl\<rparr>]
      else heartbeats st)"
  by (simp add: ingest_def Let_def heartbeats_gate heartbeats_transition split: option.splits)

lemma heartbeats_reap_one: "heartbeats (reap_one timeout now p st) = heartbeats st"
  by (simp add: reap_one_def heartbeats_transition)

lemma heartbeats_fold_reap_one: "heartbeats (fold (reap_one timeout now) ps st) = heartbeats st"
  by (induction ps arbitrary: st) (simp_all add: heartbeats_reap_one)

lemma distinct_keys_apply_operation:
  assumes "distinct (map hb_key (heartbeats st))"
  shows "distinct (map hb_key (heartbeats (apply_operation timeout x st)))"
proof (cases x)
  case (Ingest pid slot pl)
  show ?thesis
  proof (cases "fst (ingest pid slot pl st) = Accepted")
    case True
    then have "(pid, slot) \<notin> set (map hb_key (heartbeats st))"
      by (simp add: ingest_Accepted_iff)
    with assms True Ingest show ?thesis
      by (simp add: heartbeats_ingest hb_key_def)
  next
    case False
    with assms Ingest show ?thesis by (simp add: heartbeats_ingest)
  qed
next
  case (Reap now)
  with assms show ?thesis by (simp add: reap_def heartbeats_fold_reap_one)
qed

lemma distinct_keys_run:
  "distinct (map hb_key (heartbeats st)) \<Longrightarrow> distinct (map hb_key (heartbeats (run timeout ops st)))"
  by (induction ops arbitrary: st) (simp_all add: distinct_keys_apply_operation)

lemma distinct_keys_count:
  "distinct (map f xs) \<Longrightarrow> length (filter (\<lambda>x. f x = k) xs) \<le> 1"
proof (induction xs)
  case Nil
  then show ?case by simp
next
  case (Cons x xs)
  show ?case
  proof (cases "f x = k")
    case True
    from Cons.prems have nin: "f x \<notin> f ` set xs" by simp
    have "\<forall>y \<in> set xs. f y \<noteq> k"
    proof
      fix y
      assume "y \<in> set xs"
      then have "f y \<in> f ` set xs" by (rule imageI)
      with nin True show "f y \<noteq> k" by auto
    qed
    then have "filter (\<lambda>x. f x = k) xs = []" by (simp add: filter_empty_conv)
    with True show ?thesis by simp
  next
    case False
    with Cons show ?thesis by simp
  qed
qed

text \<open>
  Claim C9, as the algorithm of the spec has it. In every sequence of deliveries and
  scans, a store whose accepted heartbeats have pairwise different keys keeps that
  property, so at most one heartbeat is accepted for a pair of pulse and slot. A
  delivery for a pair that has an accepted heartbeat is never accepted and leaves the
  accepted heartbeats and the accepted-heartbeat count as they were; it is reported as
  Duplicate while the pulse is not terminal, and as rejected with PulseTerminal once the
  pulse is terminal.
\<close>

theorem heartbeat_accepted_at_most_once:
  "(distinct (map hb_key (heartbeats st)) \<longrightarrow>
      distinct (map hb_key (heartbeats (run timeout ops st)))
      \<and> length (filter (\<lambda>h. hb_key h = (pid, slot)) (heartbeats (run timeout ops st))) \<le> 1)
   \<and> ((pid, slot) \<in> set (map hb_key (heartbeats st)) \<longrightarrow>
        fst (ingest pid slot pl st) \<noteq> Accepted
        \<and> heartbeats (snd (ingest pid slot pl st)) = heartbeats st
        \<and> accepted_count (snd (ingest pid slot pl st)) pid = accepted_count st pid
        \<and> (\<forall>a. status_of st pid = Some a \<longrightarrow>
              fst (ingest pid slot pl st) = (if terminal a then Rejected PulseTerminal else Duplicate)))"
proof (intro conjI impI allI)
  assume d: "distinct (map hb_key (heartbeats st))"
  from distinct_keys_run [OF d] show "distinct (map hb_key (heartbeats (run timeout ops st)))" .
  from distinct_keys_run [OF d, of timeout ops]
  show "length (filter (\<lambda>h. hb_key h = (pid, slot)) (heartbeats (run timeout ops st))) \<le> 1"
    by (rule distinct_keys_count)
next
  assume k: "(pid, slot) \<in> set (map hb_key (heartbeats st))"
  then show no: "fst (ingest pid slot pl st) \<noteq> Accepted"
    by (simp add: ingest_Accepted_iff)
  then show same: "heartbeats (snd (ingest pid slot pl st)) = heartbeats st"
    by (simp add: heartbeats_ingest)
  then show "accepted_count (snd (ingest pid slot pl st)) pid = accepted_count st pid"
    by (simp add: accepted_count_def)
next
  fix a
  assume k: "(pid, slot) \<in> set (map hb_key (heartbeats st))" and a: "status_of st pid = Some a"
  from a obtain p where "lookup_pulse st pid = Some p" "tp_status p = a"
    by (auto simp: status_of_def)
  with k show "fst (ingest pid slot pl st) = (if terminal a then Rejected PulseTerminal else Duplicate)"
    by (simp add: ingest_def Let_def)
qed

theorem heartbeat_accepted_at_most_once_witness:
  "distinct (map hb_key (heartbeats (example_store 2)))
   \<and> distinct (map hb_key (heartbeats
        (run 10 [Ingest 1 1 ''m'', Ingest 1 1 ''m'', Ingest 1 2 ''m''] (example_store 2))))
   \<and> length (filter (\<lambda>h. hb_key h = (1, 1)) (heartbeats
        (run 10 [Ingest 1 1 ''m'', Ingest 1 1 ''m'', Ingest 1 2 ''m''] (example_store 2)))) = 1
   \<and> (1, 1) \<in> set (map hb_key (heartbeats (snd (ingest 1 1 ''m'' (example_store 2)))))
   \<and> status_of (snd (ingest 1 1 ''m'' (example_store 2))) 1 = Some InProgress
   \<and> fst (ingest 1 1 ''m'' (snd (ingest 1 1 ''m'' (example_store 2)))) = Duplicate
   \<and> accepted_count (snd (ingest 1 1 ''m'' (snd (ingest 1 1 ''m'' (example_store 2))))) 1 = 1"
proof -
  have d: "distinct (map hb_key (heartbeats (example_store 2)))"
    by (simp add: example_store_def)
  have first: "snd (ingest 1 1 ''m'' (example_store 2))
      = \<lparr>tracked = [\<lparr>tp_id = 1, tp_status = InProgress, expected_slots = 2, createdAt = 0\<rparr>],
         heartbeats = [\<lparr>hb_pulseId = 1, hb_slotId = 1, hb_payload = ''m''\<rparr>],
         audit = [], finalized = []\<rparr>"
    by (simp add: ingest_def transition_def lookup_pulse_def accepted_count_def hb_key_def
        terminal_def example_store_def Let_def)
  have k: "(1, 1) \<in> set (map hb_key (heartbeats (snd (ingest 1 1 ''m'' (example_store 2)))))"
    unfolding first by (simp add: hb_key_def)
  have s: "status_of (snd (ingest 1 1 ''m'' (example_store 2))) 1 = Some InProgress"
    unfolding first by (simp add: status_of_def lookup_pulse_def)
  have c: "accepted_count (snd (ingest 1 1 ''m'' (example_store 2))) 1 = 1"
    unfolding first by (simp add: accepted_count_def)
  have n: "length (filter (\<lambda>h. hb_key h = (1, 1)) (heartbeats
        (run 10 [Ingest 1 1 ''m'', Ingest 1 1 ''m'', Ingest 1 2 ''m''] (example_store 2)))) = 1"
    by (simp add: ingest_def transition_def lookup_pulse_def accepted_count_def hb_key_def
        terminal_def example_store_def Let_def)
  from d k s c n
    heartbeat_accepted_at_most_once [of "example_store 2" 10
      "[Ingest 1 1 ''m'', Ingest 1 1 ''m'', Ingest 1 2 ''m'']" 1 1 "''m''"]
    heartbeat_accepted_at_most_once [of "snd (ingest 1 1 ''m'' (example_store 2))" 10 "[]" 1 1 "''m''"]
  show ?thesis by (simp add: terminal_def)
qed

text \<open>
  Claim C9, as stated, fails for a duplicate that arrives when the pulse is terminal.
  A pulse that expects one slot is completed by the first delivery; the second delivery
  of the same heartbeat is rejected with PulseTerminal, not reported as Duplicate.
\<close>

theorem duplicate_after_completion_counterexample:
  "fst (ingest 1 1 ''m'' (example_store 1)) = Accepted
   \<and> status_of (snd (ingest 1 1 ''m'' (example_store 1))) 1 = Some Completed
   \<and> fst (ingest 1 1 ''m'' (snd (ingest 1 1 ''m'' (example_store 1)))) = Rejected PulseTerminal
   \<and> fst (ingest 1 1 ''m'' (snd (ingest 1 1 ''m'' (example_store 1)))) \<noteq> Duplicate"
  by (simp add: ingest_def transition_def lookup_pulse_def status_of_def accepted_count_def
      hb_key_def terminal_def example_store_def Let_def)

end
